theory Spec2Isabelle
  imports Complex_Main
begin

section \<open>The file viewer of \<^verbatim>\<open>gemini-file-viewer-py/main.py\<close>\<close>

text \<open>
  The program is one window (\<^verbatim>\<open>MainWindow\<close>) over two widgets: a read-only text pane
  and an \<^verbatim>\<open>ImageView\<close>. The embedding keeps the fields the handlers read and write,
  passes the window explicitly through every handler and returns it updated.

  Conventions of the embedding:
  \<^item> the stored \<^verbatim>\<open>float\<close> values (the zoom factors, the font's point size) are real
    numbers: \<^verbatim>\<open>max\<close> and \<^verbatim>\<open>min\<close> are exact on both, the products of the zoom steps
    are idealised (no rounding). The arithmetic of \<^verbatim>\<open>paintEvent\<close>, whose results are cut
    to whole pixels, is not idealised: it goes through the float operations of
    \<open>float_ops\<close>;
  \<^item> Python's \<^verbatim>\<open>int\<close> is \<open>int\<close>; lengths and counts, which are never negative, are \<open>nat\<close>;
  \<^item> a \<^verbatim>\<open>str\<close> is a \<open>string\<close>, one \<open>char\<close> per byte of its UTF-8 form, and a
    \<^verbatim>\<open>Path\<close> is the string that \<^verbatim>\<open>str(path)\<close> gives (two paths are equal when these
    strings are);
  \<^item> a widget is visible when it has not been hidden (the window itself is shown);
  \<^item> the file system, the image decoder and the system fonts are the record \<open>env\<close>.
\<close>

subsection \<open>Strings and paths\<close>

type_synonym path = string

definition newline :: char where
  "newline = CHR 0x0A"

text \<open>The separator of the status line, \<^verbatim>\<open>" \<emdash> "\<close>: a blank, U+2014 in UTF-8, a blank.\<close>

definition dash_sep :: string where
  "dash_sep = [CHR '' '', CHR 0xE2, CHR 0x80, CHR 0x94, CHR '' '']"

definition digit_char :: "nat \<Rightarrow> char" where
  "digit_char d = ''0123456789'' ! d"

text \<open>\<^verbatim>\<open>f"{n}"\<close> for an integer: its decimal digits, with a sign when negative.\<close>

function show_nat :: "nat \<Rightarrow> string" where
  "show_nat n = (if n < 10 then [digit_char n] else show_nat (n div 10) @ [digit_char (n mod 10)])"
  by pat_completeness auto
termination
  by (relation "measure (\<lambda>n. n)") auto

declare show_nat.simps [simp del]

definition show_int :: "int \<Rightarrow> string" where
  "show_int i = (if i < 0 then CHR ''-'' # show_nat (nat (- i)) else show_nat (nat i))"

text \<open>\<^verbatim>\<open>str.lower\<close> on the ASCII letters; every other byte is kept (no byte sequence
  outside ASCII lowers to one of the extensions below).\<close>

definition lower_char :: "char \<Rightarrow> char" where
  "lower_char c =
     (case map_of (zip ''ABCDEFGHIJKLMNOPQRSTUVWXYZ'' ''abcdefghijklmnopqrstuvwxyz'') c of
        None \<Rightarrow> c
      | Some d \<Rightarrow> d)"

definition str_lower :: "string \<Rightarrow> string" where
  "str_lower s = map lower_char s"

text \<open>\<^verbatim>\<open>s.lstrip(".")\<close>.\<close>

definition lstrip_dot :: "string \<Rightarrow> string" where
  "lstrip_dot s = dropWhile (\<lambda>c. c = CHR ''.'') s"

text \<open>\<^verbatim>\<open>s.rfind(c)\<close>: the last index of \<open>c\<close>, \<open>None\<close> for Python's \<open>-1\<close>.\<close>

definition rfind_char :: "char \<Rightarrow> string \<Rightarrow> nat option" where
  "rfind_char c s =
     (if c \<in> set s then Some (length s - 1 - length (takeWhile (\<lambda>d. d \<noteq> c) (rev s))) else None)"

text \<open>\<^verbatim>\<open>path.name\<close>: the last component.\<close>

definition path_name :: "path \<Rightarrow> string" where
  "path_name p = rev (takeWhile (\<lambda>c. c \<noteq> CHR ''/'') (rev p))"

text \<open>\<^verbatim>\<open>path.suffix\<close> of pathlib: from the last dot of the name, unless that dot is the
  name's first or last character.\<close>

definition path_suffix :: "path \<Rightarrow> string" where
  "path_suffix p =
     (let name = path_name p in
      case rfind_char CHR ''.'' name of
        None \<Rightarrow> []
      | Some i \<Rightarrow> if 0 < i \<and> i + 1 < length name then drop i name else [])"

definition IMG_EXTS :: "string set" where
  "IMG_EXTS = {''png'', ''jpg'', ''jpeg'', ''gif'', ''bmp'', ''webp''}"

definition TXT_EXTS :: "string set" where
  "TXT_EXTS = {''txt'', ''rs'', ''py'', ''toml'', ''md'', ''json'', ''js'', ''html'', ''css''}"

text \<open>\<^verbatim>\<open>ext = path.suffix.lower().lstrip(".")\<close>\<close>

definition ext_of :: "path \<Rightarrow> string" where
  "ext_of p = lstrip_dot (str_lower (path_suffix p))"

text \<open>\<^verbatim>\<open>text.startswith(needle)\<close> and \<^verbatim>\<open>text.count(needle)\<close>: the occurrences are counted
  from the left and do not overlap; the empty needle occurs between any two characters.\<close>

definition starts_with :: "string \<Rightarrow> string \<Rightarrow> bool" where
  "starts_with s needle = (take (length needle) s = needle)"

function py_count :: "string \<Rightarrow> string \<Rightarrow> nat" where
  "py_count needle s =
     (if needle = [] then length s + 1
      else if s = [] then 0
      else if starts_with s needle then 1 + py_count needle (drop (length needle) s)
      else py_count needle (tl s))"
  by pat_completeness auto
termination
  by (relation "measure (\<lambda>(needle, s). length s)") auto

declare py_count.simps [simp del]

subsection \<open>The image view\<close>

record pixmap =
  pm_width :: int
  pm_height :: int

record ImageView =
  pix :: "pixmap option"
  zoom :: real
  fit_to_window :: bool
  iv_visible :: bool

text \<open>\<^verbatim>\<open>ImageView.__init__\<close>; the window hides the view right after building it.\<close>

definition ImageView_init :: ImageView where
  "ImageView_init = \<lparr>pix = None, zoom = 1.0, fit_to_window = False, iv_visible = True\<rparr>"

definition set_image :: "pixmap \<Rightarrow> ImageView \<Rightarrow> ImageView" where
  "set_image p iv = iv\<lparr>pix := Some p, zoom := 1.0\<rparr>"

text \<open>What \<^verbatim>\<open>paintEvent\<close> reads of the widget: its size and the size of its contents
  rectangle.\<close>

record geometry =
  g_width :: int
  g_height :: int
  avail_width :: int
  avail_height :: int

record rect =
  r_x :: int
  r_y :: int
  r_w :: int
  r_h :: int

text \<open>\<^verbatim>\<open>QPixmap.isNull\<close>: a pixmap without extent.\<close>

definition pm_null :: "pixmap \<Rightarrow> bool" where
  "pm_null p = (pm_width p \<le> 0 \<or> pm_height p \<le> 0)"

text \<open>\<^verbatim>\<open>int(x)\<close> of a float: truncation towards zero.\<close>

definition py_int :: "real \<Rightarrow> int" where
  "py_int r = (if 0 \<le> r then \<lfloor>r\<rfloor> else \<lceil>r\<rceil>)"

text \<open>
  The float operations of \<^verbatim>\<open>paintEvent\<close>: the quotient \<^verbatim>\<open>a / b\<close> of two integers, the
  product \<^verbatim>\<open>i * x\<close> of an integer and a float, and the float that the literal
  \<^verbatim>\<open>0.1\<close> denotes (\<^verbatim>\<open>6.0\<close> is exact). A float is the real number it stands for.
\<close>

record float_ops =
  fl_quot :: "int \<Rightarrow> int \<Rightarrow> real"
  fl_prod :: "int \<Rightarrow> real \<Rightarrow> real"
  fl_tenth :: real

text \<open>
  Python's floats are IEEE binary64 numbers and each operation returns the float
  nearest to the exact result, ties going to the even significand. \<open>fl\<close> is this
  rounding on the normal range (magnitudes from 2 to the -1022 up to 2 to the 1024,
  which sizes of widgets and pixmaps do not leave): \<open>binade\<close> finds the exponent \<open>e\<close>
  of the power of two at or below \<open>x\<close> (its first argument bounds the steps and covers
  the range), \<open>ulp_of e\<close> is the spacing of the floats from there to the next power:
  2 to the \<open>e - 52\<close>.
\<close>

definition round_half_even :: "real \<Rightarrow> int" where
  "round_half_even y =
     (let f = \<lfloor>y\<rfloor>; d = y - real_of_int f
      in if d < 1 / 2 then f else if 1 / 2 < d then f + 1 else if even f then f else f + 1)"

function binade :: "nat \<Rightarrow> real \<Rightarrow> int \<Rightarrow> int" where
  "binade fuel x e =
     (if fuel = 0 then e
      else if x < 1 then binade (fuel - 1) (2 * x) (e - 1)
      else if 2 \<le> x then binade (fuel - 1) (x / 2) (e + 1)
      else e)"
  by pat_completeness auto
termination
  by (relation "measure (\<lambda>(fuel, x, e). fuel)") auto

declare binade.simps [simp del]

definition ulp_of :: "int \<Rightarrow> real" where
  "ulp_of e = (if 52 \<le> e then 2 ^ nat (e - 52) else 1 / 2 ^ nat (52 - e))"

definition fl :: "real \<Rightarrow> real" where
  "fl x =
     (if x = 0 then 0
      else
        (let a = \<bar>x\<bar>; u = ulp_of (binade 1100 a 0)
         in sgn x * real_of_int (round_half_even (a / u)) * u))"

definition double_ops :: float_ops where
  "double_ops =
     \<lparr>fl_quot = (\<lambda>a b. fl (real_of_int a / real_of_int b)),
      fl_prod = (\<lambda>i x. fl (real_of_int i * x)),
      fl_tenth = fl 0.1\<rparr>"

text \<open>The scale \<^verbatim>\<open>paintEvent\<close> draws with.\<close>

definition paint_scale :: "float_ops \<Rightarrow> geometry \<Rightarrow> ImageView \<Rightarrow> pixmap \<Rightarrow> real" where
  "paint_scale ops g iv p =
     (if fit_to_window iv \<and> pm_width p > 0 \<and> pm_height p > 0 then
        (let sx = fl_quot ops (avail_width g) (pm_width p);
             sy = fl_quot ops (avail_height g) (pm_height p)
         in max (fl_tenth ops) (min 6.0 (min sx sy)))
      else zoom iv)"

text \<open>\<^verbatim>\<open>paintEvent\<close>: the rectangle the pixmap is drawn into, \<open>None\<close> when the view
  returns early (\<^verbatim>\<open>not self._pix\<close>: no pixmap, or a null one).\<close>

definition paintEvent :: "float_ops \<Rightarrow> geometry \<Rightarrow> ImageView \<Rightarrow> rect option" where
  "paintEvent ops g iv =
     (case pix iv of
        None \<Rightarrow> None
      | Some p \<Rightarrow>
          if pm_null p then None
          else
            (let scale = paint_scale ops g iv p;
                 w = py_int (fl_prod ops (pm_width p) scale);
                 h = py_int (fl_prod ops (pm_height p) scale);
                 x = (g_width g - w) div 2;
                 y = (g_height g - h) div 2
             in Some \<lparr>r_x = x, r_y = y, r_w = w, r_h = h\<rparr>))"

subsection \<open>The text pane\<close>

record font =
  fixed_pitch :: bool
  point_size :: real

text \<open>The \<^verbatim>\<open>QPlainTextEdit\<close>: its content, the selection of its cursor (two offsets,
  equal when nothing is selected), its font and whether it is shown.\<close>

record PlainTextEdit =
  plain_text :: string
  sel_start :: nat
  sel_end :: nat
  te_font :: font
  te_visible :: bool

text \<open>
  The widget keeps a text as lines: a carriage return, alone or before a line feed, ends
  a line like a line feed does, and \<^verbatim>\<open>toPlainText\<close> gives the lines joined by line
  feeds. Bytes outside ASCII are kept as they are (the widget also reads U+2028 and
  U+2029 as line ends and U+00A0 as a blank, and it counts offsets in UTF-16 units where
  \<open>sel_start\<close> and \<open>sel_end\<close> count bytes: on ASCII content there is no difference).
\<close>

fun widget_text :: "string \<Rightarrow> string" where
  "widget_text [] = []"
| "widget_text [c] = [if c = CHR 0x0D then CHR 0x0A else c]"
| "widget_text (c # d # cs) =
     (if c = CHR 0x0D \<and> d = CHR 0x0A then CHR 0x0A # widget_text cs
      else if c = CHR 0x0D then CHR 0x0A # widget_text (d # cs)
      else c # widget_text (d # cs))"

text \<open>\<^verbatim>\<open>setPlainText\<close> replaces the document and puts the cursor at its start;
  \<^verbatim>\<open>clear\<close> is \<^verbatim>\<open>setPlainText("")\<close>. \<open>plain_text\<close> is what \<^verbatim>\<open>toPlainText\<close> returns.\<close>

definition setPlainText :: "string \<Rightarrow> PlainTextEdit \<Rightarrow> PlainTextEdit" where
  "setPlainText t te = te\<lparr>plain_text := widget_text t, sel_start := 0, sel_end := 0\<rparr>"

text \<open>\<^verbatim>\<open>QPlainTextEdit.zoomInF\<close>, the pane's own zoom: the point size of the font moves
  by the range \<open>r\<close>, unless it would not stay positive.\<close>

definition zoomInF :: "real \<Rightarrow> PlainTextEdit \<Rightarrow> PlainTextEdit" where
  "zoomInF r te =
     (if r = 0 then te
      else
        (let newSize = point_size (te_font te) + r
         in if newSize \<le> 0 then te
            else te\<lparr>te_font := (te_font te)\<lparr>point_size := newSize\<rparr>\<rparr>))"

text \<open>\<^verbatim>\<open>cursor.movePosition(Start); setTextCursor(cursor)\<close>\<close>

definition move_to_start :: "PlainTextEdit \<Rightarrow> PlainTextEdit" where
  "move_to_start te = te\<lparr>sel_start := 0, sel_end := 0\<rparr>"

text \<open>
  \<^verbatim>\<open>QPlainTextEdit.find(exp)\<close> is the toolkit's, not the repository's. The program calls
  it with no option flag, and the toolkit then searches forwards from the end of the
  cursor's selection, comparing without regard to case (the flag
  \<^verbatim>\<open>FindCaseSensitively\<close> is what makes the comparison exact). A match is selected and
  the call returns true; with no match the cursor stays and the call returns false.
  Case is folded on the ASCII letters.
\<close>

definition matches_at :: "string \<Rightarrow> string \<Rightarrow> bool" where
  "matches_at s needle = (str_lower (take (length needle) s) = str_lower needle)"

fun find_from :: "string \<Rightarrow> string \<Rightarrow> nat \<Rightarrow> nat option" where
  "find_from needle [] i = None"
| "find_from needle (c # cs) i =
     (if matches_at (c # cs) needle then Some i else find_from needle cs (Suc i))"

definition te_find :: "string \<Rightarrow> PlainTextEdit \<Rightarrow> bool \<times> PlainTextEdit" where
  "te_find needle te =
     (if needle = [] then (False, te)
      else case find_from needle (drop (sel_end te) (plain_text te)) (sel_end te) of
             None \<Rightarrow> (False, te)
           | Some i \<Rightarrow> (True, te\<lparr>sel_start := i, sel_end := i + length needle\<rparr>))"

text \<open>The text the cursor has selected.\<close>

definition selected_text :: "PlainTextEdit \<Rightarrow> string" where
  "selected_text te = take (sel_end te - sel_start te) (drop (sel_start te) (plain_text te))"

subsection \<open>The window\<close>

text \<open>Where a wheel tick can land: on the text pane itself (its frame), on the
  viewport inside it that shows the text, or on the image view.\<close>

datatype widget = TextWidget | TextViewport | ImageWidget

datatype menu_item = Placeholder | OpenEntry path | Separator | ClearRecent

text \<open>The outside world: \<^verbatim>\<open>open(path, "rb").read()\<close> (the bytes, or the message of the
  exception), \<^verbatim>\<open>bytes.decode("utf-8", errors="replace")\<close> (which never fails),
  \<^verbatim>\<open>QPixmap(str(path))\<close> (\<open>None\<close> when nothing was decoded; the pixmap is null then, as
  is one without extent), and two fonts of the system.\<close>

record env =
  read_file :: "path \<Rightarrow> string + string"
  decode_utf8 :: "string \<Rightarrow> string"
  load_pixmap :: "path \<Rightarrow> pixmap option"
  default_font :: font
  fixed_font :: font

record MainWindow =
  current_path :: "path option"
  recents :: "path list"
  text_view :: PlainTextEdit
  text_zoom :: real
  image_view :: ImageView
  find_edit :: string
  find_count :: string
  recent_menu :: "menu_item list"
  chk_fit :: bool
  status :: string
  filtered :: "widget list"

text \<open>\<^verbatim>\<open>MainWindow.__init__\<close>: the text pane is left shown, the image view is hidden, and
  the window's event filter is installed on the text pane alone (\<open>filtered\<close>).\<close>

definition init :: "env \<Rightarrow> MainWindow" where
  "init e =
     \<lparr>current_path = None,
      recents = [],
      text_view = \<lparr>plain_text = [], sel_start = 0, sel_end = 0,
                   te_font = default_font e, te_visible = True\<rparr>,
      text_zoom = 1.0,
      image_view = ImageView_init\<lparr>iv_visible := False\<rparr>,
      find_edit = [],
      find_count = [],
      recent_menu = [],
      chk_fit = False,
      status = [],
      filtered = [TextWidget]\<rparr>"

text \<open>\<^verbatim>\<open>eventFilter\<close> on a wheel event: \<open>delta\<close> is \<^verbatim>\<open>ev.angleDelta().y()\<close>, \<open>ctrl\<close>
  whether the Control modifier is down. The boolean is what the filter returns (true:
  the event is consumed).\<close>

definition eventFilter :: "widget \<Rightarrow> int \<Rightarrow> bool \<Rightarrow> MainWindow \<Rightarrow> bool \<times> MainWindow" where
  "eventFilter obj delta ctrl s =
     (if obj = ImageWidget \<and> delta \<noteq> 0 then
        (True, s\<lparr>image_view := (image_view s)\<lparr>fit_to_window := False,
           zoom := max 0.1 (min 6.0 (zoom (image_view s) * (if delta > 0 then 1.1 else 1 / 1.1)))\<rparr>\<rparr>)
      else if obj = TextWidget \<and> ctrl \<and> delta \<noteq> 0 then
        (let f = te_font (text_view s);
             f' = f\<lparr>point_size := point_size f * (if delta > 0 then 1.05 else 1 / 1.05)\<rparr>
         in (True, s\<lparr>text_zoom := max 0.6 (min 3.0 (text_zoom s * (if delta > 0 then 1.05 else 1 / 1.05))),
                     text_view := (text_view s)\<lparr>te_font := f'\<rparr>\<rparr>))
      else (False, s))"

text \<open>
  The widgets' own handling of a wheel tick, which is the toolkit's. The text pane is
  read-only (\<^verbatim>\<open>setReadOnly(True)\<close>), and a read-only pane answers a tick with Control
  down, on its frame or on its viewport, by \<^verbatim>\<open>zoomInF(delta / 120)\<close>; without Control
  it scrolls. The image view is a label and leaves the tick to the scroll area around
  it. Scrolling changes nothing of the state kept here.
\<close>

definition own_wheel :: "widget \<Rightarrow> int \<Rightarrow> bool \<Rightarrow> MainWindow \<Rightarrow> MainWindow" where
  "own_wheel obj delta ctrl s =
     (if obj \<noteq> ImageWidget \<and> ctrl then
        s\<lparr>text_view := zoomInF (real_of_int delta / 120) (text_view s)\<rparr>
      else s)"

text \<open>The toolkit hands an event for a widget to a filter only when the filter was
  installed on that widget. When no filter consumes the event, the widget's own
  handling runs.\<close>

definition wheel_event :: "widget \<Rightarrow> int \<Rightarrow> bool \<Rightarrow> MainWindow \<Rightarrow> MainWindow" where
  "wheel_event obj delta ctrl s =
     (if obj \<in> set (filtered s) \<and> fst (eventFilter obj delta ctrl s)
      then snd (eventFilter obj delta ctrl s)
      else own_wheel obj delta ctrl s)"

definition toggle_fit :: "bool \<Rightarrow> MainWindow \<Rightarrow> MainWindow" where
  "toggle_fit state s = s\<lparr>image_view := (image_view s)\<lparr>fit_to_window := state\<rparr>\<rparr>"

text \<open>\<^verbatim>\<open>chk_fit.setChecked(False)\<close>: a change of the box calls \<^verbatim>\<open>toggle_fit\<close>.\<close>

definition uncheck_fit :: "MainWindow \<Rightarrow> MainWindow" where
  "uncheck_fit s = (if chk_fit s then toggle_fit False (s\<lparr>chk_fit := False\<rparr>) else s)"

definition zoom_image :: "real \<Rightarrow> MainWindow \<Rightarrow> MainWindow" where
  "zoom_image factor s =
     (if \<not> iv_visible (image_view s) then s
      else
        (let s1 = uncheck_fit (s\<lparr>image_view := (image_view s)\<lparr>fit_to_window := False\<rparr>\<rparr>)
         in s1\<lparr>image_view := (image_view s1)\<lparr>zoom := max 0.1 (min 6.0 (zoom (image_view s1) * factor))\<rparr>\<rparr>))"

definition reset_zoom :: "env \<Rightarrow> MainWindow \<Rightarrow> MainWindow" where
  "reset_zoom e s =
     (if iv_visible (image_view s) then
        (let s1 = uncheck_fit (s\<lparr>image_view := (image_view s)\<lparr>fit_to_window := False\<rparr>\<rparr>)
         in s1\<lparr>image_view := (image_view s1)\<lparr>zoom := 1.0\<rparr>\<rparr>)
      else s\<lparr>text_zoom := 1.0, text_view := (text_view s)\<lparr>te_font := fixed_font e\<rparr>\<rparr>)"

definition clear :: "MainWindow \<Rightarrow> MainWindow" where
  "clear s =
     s\<lparr>current_path := None,
       text_view := (setPlainText [] (text_view s))\<lparr>te_visible := False\<rparr>,
       image_view := (image_view s)\<lparr>iv_visible := False\<rparr>,
       status := []\<rparr>"

definition refresh_recents :: "MainWindow \<Rightarrow> MainWindow" where
  "refresh_recents s =
     s\<lparr>recent_menu := (if recents s = [] then [Placeholder] else [])
          @ map OpenEntry (rev (recents s)) @ [Separator, ClearRecent]\<rparr>"

text \<open>The body of the \<^verbatim>\<open>try\<close> in \<^verbatim>\<open>load_path\<close>: \<open>Inl\<close> carries \<^verbatim>\<open>str(e)\<close> of the
  exception raised, \<open>Inr\<close> the window after the body ran to its end.\<close>

definition try_load :: "env \<Rightarrow> path \<Rightarrow> MainWindow \<Rightarrow> string + MainWindow" where
  "try_load e path s =
     (if ext_of path \<in> IMG_EXTS then
        (case load_pixmap e path of
           None \<Rightarrow> Inl ''Failed to load image''
         | Some p \<Rightarrow>
             if pm_null p then Inl ''Failed to load image''
             else
             Inr (s\<lparr>image_view := (set_image p (image_view s))\<lparr>iv_visible := True\<rparr>,
                    text_view := (text_view s)\<lparr>te_visible := False\<rparr>,
                    status := path @ dash_sep @ show_int (pm_width p) @ ''x''
                                @ show_int (pm_height p) @ '' px''\<rparr>))
      else
        (case read_file e path of
           Inl msg \<Rightarrow> Inl msg
         | Inr data \<Rightarrow>
             (let text = decode_utf8 e data;
                  lines = (if text \<noteq> [] then py_count [newline] text + 1 else 0)
              in Inr (s\<lparr>text_view := (setPlainText text (text_view s))\<lparr>te_visible := True\<rparr>,
                        image_view := (image_view s)\<lparr>iv_visible := False\<rparr>,
                        status := path @ dash_sep @ show_nat lines @ '' lines''\<rparr>))))"

text \<open>The update of the recent list: \<^verbatim>\<open>remove\<close> (the first occurrence), \<^verbatim>\<open>append\<close>,
  \<^verbatim>\<open>[-10:]\<close>.\<close>

definition touch_recents :: "path \<Rightarrow> path list \<Rightarrow> path list" where
  "touch_recents path rs =
     (let rs1 = (if path \<in> set rs then remove1 path rs else rs);
          rs2 = rs1 @ [path]
      in drop (length rs2 - 10) rs2)"

text \<open>\<^verbatim>\<open>load_path\<close>: the first component is the message of the modal error box, when
  one is shown.\<close>

definition load_path :: "env \<Rightarrow> path \<Rightarrow> MainWindow \<Rightarrow> string option \<times> MainWindow" where
  "load_path e path s0 =
     (let s = s0\<lparr>current_path := Some path\<rparr> in
      case try_load e path s of
        Inl msg \<Rightarrow> (Some msg, s)
      | Inr s1 \<Rightarrow> (None, refresh_recents (s1\<lparr>recents := touch_recents path (recents s1)\<rparr>)))"

definition update_find_count :: "string \<Rightarrow> MainWindow \<Rightarrow> MainWindow" where
  "update_find_count needle s =
     (if \<not> te_visible (text_view s) then s\<lparr>find_count := []\<rparr>
      else s\<lparr>find_count := show_nat (py_count needle (plain_text (text_view s))) @ '' match(es)''\<rparr>)"

definition find_next :: "MainWindow \<Rightarrow> MainWindow" where
  "find_next s =
     (let needle = find_edit s in
      if needle = [] \<or> \<not> te_visible (text_view s) then s
      else
        (let (found, te) = te_find needle (text_view s);
             te' = (if \<not> found then snd (te_find needle (move_to_start te)) else te)
         in update_find_count needle (s\<lparr>text_view := te'\<rparr>)))"

subsection \<open>Runs of the window\<close>

text \<open>What the user can do: open a path (from the dialog or the recent menu), the
  toolbar actions and shortcuts, a wheel tick over a widget, typing into the find
  field and pressing return there, and the last entry of the recent menu.
  \<open>CallFilter\<close> invokes \<^verbatim>\<open>eventFilter\<close> itself, as the toolkit would for a widget the
  filter is installed on.\<close>

datatype event =
    LoadPath path
  | Clear
  | ZoomIn
  | ZoomOut
  | ResetZoom
  | ClickFit
  | Wheel widget int bool
  | CallFilter widget int bool
  | SetFindText string
  | FindNext
  | ClearRecentFiles

fun step :: "env \<Rightarrow> MainWindow \<Rightarrow> event \<Rightarrow> MainWindow" where
  "step e s (LoadPath p) = snd (load_path e p s)"
| "step e s Clear = clear s"
| "step e s ZoomIn = zoom_image 1.1 s"
| "step e s ZoomOut = zoom_image (1 / 1.1) s"
| "step e s ResetZoom = reset_zoom e s"
| "step e s ClickFit = toggle_fit (\<not> chk_fit s) (s\<lparr>chk_fit := \<not> chk_fit s\<rparr>)"
| "step e s (Wheel obj delta ctrl) = wheel_event obj delta ctrl s"
| "step e s (CallFilter obj delta ctrl) = snd (eventFilter obj delta ctrl s)"
| "step e s (SetFindText t) = s\<lparr>find_edit := t\<rparr>"
| "step e s FindNext = find_next s"
| "step e s ClearRecentFiles = s\<lparr>recents := []\<rparr>"

definition run :: "env \<Rightarrow> event list \<Rightarrow> MainWindow" where
  "run e evs = foldl (step e) (init e) evs"

subsection \<open>The specification's side\<close>

text \<open>The definitions of this subsection follow the words of the specification; the
  theorems below compare them with the handlers above.\<close>

text \<open>\<open>clamp(v, lo, hi)\<close>.\<close>

definition clamp :: "real \<Rightarrow> real \<Rightarrow> real \<Rightarrow> real" where
  "clamp v lo hi = (if v < lo then lo else if hi < v then hi else v)"

text \<open>Fit-to-window rendering of a \<open>bw\<close> by \<open>bh\<close> bitmap in a \<open>vw\<close> by \<open>vh\<close> viewport: the
  clamped scale, the floored size, the centred position. The quotients, the products and
  the bound 0.1 are floats, those of \<open>ops\<close>.\<close>

definition spec_fit_rect :: "float_ops \<Rightarrow> int \<Rightarrow> int \<Rightarrow> int \<Rightarrow> int \<Rightarrow> rect" where
  "spec_fit_rect ops vw vh bw bh =
     (let scale = clamp (min (fl_quot ops vw bw) (fl_quot ops vh bh)) (fl_tenth ops) 6.0;
          w = \<lfloor>fl_prod ops bw scale\<rfloor>;
          h = \<lfloor>fl_prod ops bh scale\<rfloor>
      in \<lparr>r_x = (vw - w) div 2, r_y = (vh - h) div 2, r_w = w, r_h = h\<rparr>)"

text \<open>The recent list after the paths \<open>ps\<close> were loaded in this order: the distinct paths
  in the order of their last load, of which the last ten are kept.\<close>

definition spec_recents :: "path list \<Rightarrow> path list" where
  "spec_recents ps = (let d = remdups ps in drop (length d - 10) d)"


subsection \<open>Predicates on windows and a sample environment\<close>

text \<open>Loading \<open>p\<close> raises nothing (this does not depend on the window, see
  \<open>load_path_ok_indep\<close>).\<close>

definition load_succeeds :: "env \<Rightarrow> path \<Rightarrow> bool" where
  "load_succeeds e p = (fst (load_path e p (init e)) = None)"

definition zoom_ok :: "MainWindow \<Rightarrow> bool" where
  "zoom_ok s =
     (0.1 \<le> zoom (image_view s) \<and> zoom (image_view s) \<le> 6.0
      \<and> 0.6 \<le> text_zoom s \<and> text_zoom s \<le> 3.0)"

definition one_view :: "MainWindow \<Rightarrow> bool" where
  "one_view s = (\<not> (iv_visible (image_view s) \<and> te_visible (text_view s)))"

text \<open>An environment to run the handlers in: a few ASCII text files (on ASCII the
  decoding is the identity), one file that cannot be read, every other file empty, and
  one image that decodes.\<close>

definition demo_files :: "(path \<times> string) list" where
  "demo_files =
     [(''two.txt'', [CHR ''a'', CHR 0x0A, CHR ''b'']),
      (''three.txt'', [CHR ''a'', CHR 0x0A, CHR ''b'', CHR 0x0A]),
      (''dos.txt'', [CHR ''a'', CHR 0x0D, CHR 0x0A, CHR ''a'', CHR ''b'']),
      (''mixed.txt'', ''AB ab''),
      (''abs.txt'', ''ab ab ab'')]"

definition demo_env :: env where
  "demo_env =
     \<lparr>read_file = (\<lambda>p. if p = ''gone.txt'' then Inl ''[Errno 2] No such file or directory''
                        else Inr (case map_of demo_files p of None \<Rightarrow> [] | Some d \<Rightarrow> d)),
      decode_utf8 = (\<lambda>b. b),
      load_pixmap = (\<lambda>p. if p = ''wide.png'' then Some \<lparr>pm_width = 1600, pm_height = 300\<rparr> else None),
      default_font = \<lparr>fixed_pitch = False, point_size = 10\<rparr>,
      fixed_font = \<lparr>fixed_pitch = True, point_size = 10\<rparr>\<rparr>"

section \<open>Properties\<close>

subsection \<open>Auxiliary facts\<close>

lemma uncheck_fit_fields [simp]:
  "zoom (image_view (uncheck_fit s)) = zoom (image_view s)"
  "iv_visible (image_view (uncheck_fit s)) = iv_visible (image_view s)"
  "text_view (uncheck_fit s) = text_view s"
  "text_zoom (uncheck_fit s) = text_zoom s"
  "recents (uncheck_fit s) = recents s"
  by (simp_all add: uncheck_fit_def toggle_fit_def)

lemma foldl_inv:
  "P s \<Longrightarrow> (\<And>s ev. P s \<Longrightarrow> P (step e s ev)) \<Longrightarrow> P (foldl (step e) s evs)"
  by (induction evs arbitrary: s) auto

lemma run_snoc: "run e (evs @ [ev]) = step e (run e evs) ev"
  by (simp add: run_def)

lemma step_zoom_ok: "zoom_ok s \<Longrightarrow> zoom_ok (step e s ev)"
proof (cases ev)
  case (LoadPath p)
  assume "zoom_ok s"
  then show ?thesis unfolding LoadPath
    by (auto simp: zoom_ok_def load_path_def try_load_def refresh_recents_def set_image_def Let_def
        split: option.splits sum.splits)
next
  case FindNext
  assume "zoom_ok s"
  then show ?thesis unfolding FindNext
    by (auto simp: zoom_ok_def find_next_def update_find_count_def Let_def split: prod.splits)
qed (auto simp: zoom_ok_def clear_def zoom_image_def reset_zoom_def toggle_fit_def
      wheel_event_def own_wheel_def eventFilter_def Let_def)

lemma step_one_view: "one_view s \<Longrightarrow> one_view (step e s ev)"
proof (cases ev)
  case (LoadPath p)
  assume "one_view s"
  then show ?thesis unfolding LoadPath
    by (auto simp: one_view_def load_path_def try_load_def refresh_recents_def set_image_def Let_def
        split: option.splits sum.splits)
next
  case FindNext
  assume "one_view s"
  then show ?thesis unfolding FindNext
    by (auto simp: one_view_def find_next_def update_find_count_def te_find_def move_to_start_def
        Let_def split: prod.splits option.splits if_splits)
qed (auto simp: one_view_def clear_def zoom_image_def reset_zoom_def toggle_fit_def
      wheel_event_def own_wheel_def zoomInF_def eventFilter_def Let_def)

lemma load_path_ok_indep: "(fst (load_path e p s) = None) = (fst (load_path e p s') = None)"
  by (simp add: load_path_def try_load_def Let_def split: option.splits sum.splits if_splits)

lemma load_path_recents:
  "fst (load_path e p s) = None \<Longrightarrow> recents (snd (load_path e p s)) = touch_recents p (recents s)"
  by (auto simp: load_path_def try_load_def refresh_recents_def Let_def split: option.splits sum.splits if_splits)

lemma remdups_snoc:
  "remdups (ps @ [p]) = (if p \<in> set (remdups ps) then remove1 p (remdups ps) else remdups ps) @ [p]"
proof -
  have "remdups (ps @ [p]) = removeAll p (remdups ps) @ [p]"
    by (induction ps) auto
  then show ?thesis
    by (simp add: distinct_remove1_removeAll)
qed

lemma length_remove1_snoc: "p \<in> set d \<Longrightarrow> length (remove1 p d @ [p]) = length d"
  using length_pos_if_in_set [of p d] by (simp add: length_remove1)

lemma touch_last10:
  assumes "distinct d"
  shows "touch_recents p (drop (length d - 10) d) =
         (let d' = (if p \<in> set d then remove1 p d else d) @ [p] in drop (length d' - 10) d')"
proof -
  let ?k = "length d - 10"
  have split: "d = take ?k d @ drop ?k d" by simp
  have dis: "set (take ?k d) \<inter> set (drop ?k d) = {}"
    using assms by (metis append_take_drop_id distinct_append)
  consider (new) "p \<notin> set d" | (kept) "p \<in> set (drop ?k d)" | (evicted) "p \<in> set (take ?k d)"
    by (metis Un_iff append_take_drop_id set_append)
  then show ?thesis
  proof cases
    case new
    then have np: "p \<notin> set (drop ?k d)" by (meson in_set_dropD)
    have ar: "length d - (length d - 10 + 9) + (length d - 10) = length d - 9" by arith
    from new np show ?thesis
      by (simp add: touch_recents_def Let_def ar)
  next
    case kept
    then have pd: "p \<in> set d" by (meson in_set_dropD)
    from kept dis have nt: "p \<notin> set (take ?k d)" by auto
    have "remove1 p d = remove1 p (take ?k d @ drop ?k d)" by simp
    also have "\<dots> = take ?k d @ remove1 p (drop ?k d)"
      using nt by (simp only: remove1_append if_False)
    finally have r: "remove1 p d = take ?k d @ remove1 p (drop ?k d)" .
    have len: "length (remove1 p (drop ?k d)) = length (drop ?k d) - 1"
      using kept by (simp add: length_remove1)
    have pos: "0 < length (drop ?k d)" using kept by (cases "drop ?k d") auto
    have lk: "length (take ?k d) = ?k" by simp
    have "drop ?k (remove1 p d @ [p]) = remove1 p (drop ?k d) @ [p]"
      by (subst r) simp
    moreover have "length (remove1 p d @ [p]) = length d"
      using pd by (rule length_remove1_snoc)
    moreover have "touch_recents p (drop ?k d) = remove1 p (drop ?k d) @ [p]"
      using kept len pos by (simp add: touch_recents_def Let_def)
    ultimately show ?thesis using pd by (simp add: Let_def)
  next
    case evicted
    then have pd: "p \<in> set d" by (meson in_set_takeD)
    from evicted dis have nd: "p \<notin> set (drop ?k d)" by auto
    from evicted have kpos: "0 < ?k" by (cases "?k") auto
    then have l10: "length (drop ?k d) = 10" by simp
    have r: "remove1 p d = remove1 p (take ?k d) @ drop ?k d"
    proof -
      have "remove1 p d = remove1 p (take ?k d @ drop ?k d)" by simp
      also have "\<dots> = remove1 p (take ?k d) @ drop ?k d"
        using evicted by (simp only: remove1_append if_True)
      finally show ?thesis .
    qed
    have lr: "length (remove1 p (take ?k d)) = ?k - 1"
      using evicted by (simp add: length_remove1)
    have "drop ?k (remove1 p d @ [p]) = drop 1 (drop ?k d @ [p])"
      using kpos lr by (subst r) simp
    moreover have "length (remove1 p d @ [p]) = length d"
      using pd by (rule length_remove1_snoc)
    moreover have "touch_recents p (drop ?k d) = drop 1 (drop ?k d @ [p])"
      using nd l10 by (simp add: touch_recents_def Let_def)
    ultimately show ?thesis using pd by (simp add: Let_def)
  qed
qed

lemma clamp_max_min: "lo \<le> hi \<Longrightarrow> clamp v lo hi = max lo (min hi v)"
  by (auto simp add: clamp_def max_def min_def)

lemma clamp_pos: "0 < lo \<Longrightarrow> lo \<le> hi \<Longrightarrow> 0 < clamp v lo hi"
  by (simp add: clamp_def)

lemma ulp_pos: "0 < ulp_of e"
  by (simp add: ulp_of_def)

lemma round_half_even_nonneg: "0 \<le> y \<Longrightarrow> 0 \<le> round_half_even y"
  by (auto simp add: round_half_even_def Let_def)

lemma fl_nonneg: "0 \<le> x \<Longrightarrow> 0 \<le> fl x"
proof (cases "x = 0")
  case True
  then show ?thesis by (simp add: fl_def)
next
  case False
  assume "0 \<le> x"
  with False have x: "0 < x" by simp
  let ?u = "ulp_of (binade 1100 x 0)"
  have "0 \<le> x / ?u"
    using x ulp_pos [of "binade 1100 x 0"] by simp
  then have "0 \<le> round_half_even (x / ?u)"
    by (rule round_half_even_nonneg)
  then have "0 \<le> real_of_int (round_half_even (x / ?u)) * ?u"
    using ulp_pos [of "binade 1100 x 0"] by simp
  with x show ?thesis
    by (simp add: fl_def Let_def)
qed

text \<open>Values of \<open>fl\<close>: the exponent first, the rounding of the significand next.\<close>

lemma fl_values:
  "fl (1 / 10) = 3602879701896397 / 36028797018963968"
  "fl (1 / 2) = 1 / 2"
  "fl 2 = 2"
  "fl 6 = 6"
  "fl 150 = 150"
  "fl 800 = 800"
  "fl (800 / 161) = 5594533698596889 / 1125899906842624"
  unfolding fl_def Let_def
  by (simp_all add: binade.simps) (simp_all add: ulp_of_def round_half_even_def Let_def)

lemma double_ops_sound:
  "0 < fl_tenth double_ops" "fl_tenth double_ops \<le> 6"
  "0 \<le> i \<Longrightarrow> 0 \<le> x \<Longrightarrow> 0 \<le> fl_prod double_ops i x"
  by (simp_all add: double_ops_def fl_values fl_nonneg)

lemma py_count_single: "py_count [c] s = count_list s c"
proof (induction s)
  case Nil
  show ?case by (simp add: py_count.simps)
next
  case (Cons x xs)
  then show ?case
    by (subst py_count.simps) (simp add: starts_with_def)
qed

lemma load_path_keeps_fit:
  "fit_to_window (image_view (snd (load_path e p s))) = fit_to_window (image_view s)"
  by (simp add: load_path_def try_load_def refresh_recents_def set_image_def Let_def
      split: option.splits sum.splits if_splits)

text \<open>Unfolding for runs in the sample environment.\<close>

lemmas eval_defs = run_def init_def ImageView_init_def load_path_def try_load_def pm_null_def
  refresh_recents_def touch_recents_def set_image_def setPlainText_def demo_env_def demo_files_def
  ext_of_def lstrip_dot_def str_lower_def path_suffix_def path_name_def rfind_char_def
  lower_char_def IMG_EXTS_def Let_def

lemma demo_txt_ok: "load_succeeds demo_env ''two.txt''" "load_succeeds demo_env ''three.txt''"
  by (simp_all add: load_succeeds_def eval_defs)


lemma demo_num_ok:
  "load_succeeds demo_env ''ch01.md''" "load_succeeds demo_env ''ch02.md''" "load_succeeds demo_env ''ch03.md''"
  "load_succeeds demo_env ''ch04.md''" "load_succeeds demo_env ''ch05.md''" "load_succeeds demo_env ''ch06.md''"
  "load_succeeds demo_env ''ch07.md''" "load_succeeds demo_env ''ch08.md''" "load_succeeds demo_env ''ch09.md''"
  "load_succeeds demo_env ''ch10.md''" "load_succeeds demo_env ''ch11.md''"
  by (simp_all add: load_succeeds_def eval_defs)

lemmas ext_defs = ext_of_def lstrip_dot_def str_lower_def path_suffix_def path_name_def rfind_char_def
  lower_char_def IMG_EXTS_def Let_def

lemma load_path_failure_frame:
  "fst (load_path e p s) = Some msg \<Longrightarrow> snd (load_path e p s) = s\<lparr>current_path := Some p\<rparr>"
  by (auto simp: load_path_def try_load_def Let_def split: option.splits sum.splits if_splits)

lemma image_failure_message:
  "ext_of p \<in> IMG_EXTS \<Longrightarrow> load_pixmap e p = None \<Longrightarrow> fst (load_path e p s) = Some ''Failed to load image''"
  by (simp add: load_path_def try_load_def Let_def)

lemma filtered_step: "filtered (step e s ev) = filtered s"
  by (cases ev) (auto simp: load_path_def try_load_def refresh_recents_def clear_def zoom_image_def
      reset_zoom_def toggle_fit_def uncheck_fit_def wheel_event_def own_wheel_def eventFilter_def
      find_next_def
      update_find_count_def Let_def split: option.splits sum.splits prod.splits)

lemma filtered_run: "filtered (run e evs) = [TextWidget]"
  by (induction evs rule: rev_induct) (simp_all add: run_snoc filtered_step, simp add: run_def init_def)

lemma wheel_on_image_ignored: "wheel_event ImageWidget delta ctrl (run e evs) = run e evs"
  by (simp add: wheel_event_def own_wheel_def filtered_run)

lemma filter_on_image: "delta \<noteq> 0 \<Longrightarrow>
   zoom (image_view (snd (eventFilter ImageWidget delta ctrl s)))
     = max 0.1 (min 6.0 (zoom (image_view s) * (if delta > 0 then 1.1 else 1 / 1.1)))
   \<and> \<not> fit_to_window (image_view (snd (eventFilter ImageWidget delta ctrl s)))"
  by (simp add: eventFilter_def)


lemma font_after_ticks:
  assumes "delta \<noteq> 0"
  shows "TextWidget \<in> set (filtered s) \<Longrightarrow>
     point_size (te_font (text_view (foldl (step e) s (replicate n (Wheel TextWidget delta True)))))
       = point_size (te_font (text_view s)) * (if delta > 0 then 1.05 else 1 / 1.05) ^ n"
proof (induction n arbitrary: s)
  case 0
  show ?case by simp
next
  case (Suc n)
  let ?s = "step e s (Wheel TextWidget delta True)"
  let ?ev = "Wheel TextWidget delta True"
  let ?k = "(if delta > 0 then 1.05 else 1 / 1.05) :: real"
  have f: "TextWidget \<in> set (filtered ?s)"
    using Suc.prems by (simp only: filtered_step)
  have p: "point_size (te_font (text_view ?s)) = point_size (te_font (text_view s)) * ?k"
    using Suc.prems assms by (simp add: wheel_event_def eventFilter_def Let_def)
  have "point_size (te_font (text_view (foldl (step e) s (replicate (Suc n) ?ev))))
      = point_size (te_font (text_view (foldl (step e) ?s (replicate n ?ev))))"
    by (simp only: replicate_Suc foldl_Cons)
  also have "\<dots> = point_size (te_font (text_view ?s)) * ?k ^ n"
    by (rule Suc.IH [OF f])
  also have "\<dots> = point_size (te_font (text_view s)) * ?k * ?k ^ n"
    by (simp only: p)
  also have "\<dots> = point_size (te_font (text_view s)) * ?k ^ Suc n"
    by (simp only: power_Suc mult.assoc)
  finally show ?case .
qed

lemma reset_zoom_text:
  "\<not> iv_visible (image_view s) \<Longrightarrow>
     text_zoom (reset_zoom e s) = 1 \<and> te_font (text_view (reset_zoom e s)) = fixed_font e"
  by (simp add: reset_zoom_def)

lemmas find_defs = find_next_def update_find_count_def te_find_def move_to_start_def
  matches_at_def selected_text_def starts_with_def

lemma find_next_cycles:
  "map (\<lambda>n. sel_start (text_view (run demo_env ([LoadPath ''abs.txt'', SetFindText ''ab''] @ replicate n FindNext)))) [1, 2, 3, 4] = [0, 3, 6, 0]
  \<and> find_count (run demo_env [LoadPath ''abs.txt'', SetFindText ''ab'', FindNext]) = ''3 match(es)''"
  by (simp add: eval_defs find_defs py_count.simps show_nat.simps digit_char_def eval_nat_numeral)

lemma find_next_noop:
  "find_edit s = [] \<or> \<not> te_visible (text_view s) \<Longrightarrow> find_next s = s"
  by (auto simp add: find_next_def Let_def)


text \<open>Rounding at work: the bitmap 161 by 100 in the viewport 800 by 600 is drawn 799
  wide, where exact arithmetic would give 800.\<close>

lemma paint_rounds_down:
  "paintEvent double_ops \<lparr>g_width = 800, g_height = 600, avail_width = 800, avail_height = 600\<rparr>
     \<lparr>pix = Some \<lparr>pm_width = 161, pm_height = 100\<rparr>, zoom = 1, fit_to_window = True, iv_visible = True\<rparr>
     = Some \<lparr>r_x = 0, r_y = 52, r_w = 799, r_h = 496\<rparr>"
proof -
  let ?g = "\<lparr>g_width = 800, g_height = 600, avail_width = 800, avail_height = 600\<rparr>"
  let ?p = "\<lparr>pm_width = 161, pm_height = 100\<rparr>"
  let ?iv = "\<lparr>pix = Some ?p, zoom = 1, fit_to_window = True, iv_visible = True\<rparr>"
  let ?a = "5594533698596889 / 1125899906842624 :: real"
  have s: "paint_scale double_ops ?g ?iv ?p = ?a"
    by (simp add: paint_scale_def double_ops_def fl_values Let_def)
  have w: "py_int (fl_prod double_ops 161 ?a) = 799"
    unfolding double_ops_def py_int_def fl_def Let_def
    by (simp add: binade.simps) (simp add: ulp_of_def round_half_even_def Let_def)
  have h: "py_int (fl_prod double_ops 100 ?a) = 496"
    unfolding double_ops_def py_int_def fl_def Let_def
    by (simp add: binade.simps) (simp add: ulp_of_def round_half_even_def Let_def)
  show ?thesis
    by (simp add: paintEvent_def pm_null_def Let_def s w h)
qed

text \<open>Line ends: the widget shows \<open>a\<close>, CR, LF, \<open>ab\<close> as \<open>a\<close>, LF, \<open>ab\<close>; the status counts on
  the decoded text.\<close>

lemma dos_line_ends:
  "plain_text (text_view (run demo_env [LoadPath ''dos.txt''])) = [CHR ''a'', CHR 0x0A, CHR ''a'', CHR ''b'']
   \<and> status (run demo_env [LoadPath ''dos.txt''])
       = ''dos.txt'' @ [CHR '' '', CHR 0xE2, CHR 0x80, CHR 0x94, CHR '' ''] @ ''2 lines''"
  by (simp add: eval_defs py_count_single newline_def dash_sep_def show_nat.simps digit_char_def)

text \<open>Ticks over the viewport of the text pane pass the filter by: the pane's own zoom
  moves the font by a point per tick and stops above zero.\<close>

lemma viewport_ticks:
  "text_zoom (run demo_env (replicate 11 (Wheel TextViewport (- 120) True))) = 1
   \<and> point_size (te_font (text_view (run demo_env (replicate 11 (Wheel TextViewport (- 120) True))))) = 1
   \<and> point_size (te_font (text_view (run demo_env (replicate 23 (Wheel TextViewport 120 True))))) = 33"
  by (simp add: run_def init_def demo_env_def wheel_event_def own_wheel_def zoomInF_def Let_def
      eval_nat_numeral)

subsection \<open>The two views\<close>

text \<open>
  C4. In every state reachable from the freshly built window by any sequence of events
  (loads that succeed or fail, Clear, and every other action of the window), the image
  view and the text pane are never both visible.
\<close>

theorem views_never_both_visible:
  "\<not> (iv_visible (image_view (run e evs)) \<and> te_visible (text_view (run e evs)))"
proof -
  have "one_view (init e)"
    by (simp add: one_view_def init_def ImageView_init_def)
  then have "one_view (run e evs)"
    unfolding run_def by (rule foldl_inv) (rule step_one_view)
  then show ?thesis
    by (simp add: one_view_def)
qed

subsection \<open>Zoom factors\<close>

text \<open>
  C8. After any sequence of events (wheel ticks, whether dispatched by the toolkit or
  handed to the filter directly, Zoom +, Zoom -, the reset to 100 percent, and all the
  others), the stored image zoom factor lies in \<open>[0.1, 6.0]\<close> and the stored text zoom
  factor in \<open>[0.6, 3.0]\<close>.
\<close>

theorem zoom_factors_stay_in_range:
  "0.1 \<le> zoom (image_view (run e evs)) \<and> zoom (image_view (run e evs)) \<le> 6.0
   \<and> 0.6 \<le> text_zoom (run e evs) \<and> text_zoom (run e evs) \<le> 3.0"
proof -
  have "zoom_ok (init e)"
    by (simp add: zoom_ok_def init_def ImageView_init_def)
  then have "zoom_ok (run e evs)"
    unfolding run_def by (rule foldl_inv) (rule step_zoom_ok)
  then show ?thesis
    by (simp add: zoom_ok_def)
qed

subsection \<open>The recent list\<close>

text \<open>
  C5. When every path of \<open>ps\<close> loads, the recent list after loading them in this order
  from the fresh window is the list of the distinct paths in the order of their last
  load, cut to its last ten: no path occurs twice, there are at most ten, a path loaded
  again moves to the end (A, B, A gives [B, A]) and the eleventh distinct path evicts the
  oldest.
\<close>

theorem recents_most_recent_ten:
  assumes "\<forall>p \<in> set ps. load_succeeds e p"
  shows "recents (run e (map LoadPath ps)) = spec_recents ps
       \<and> distinct (recents (run e (map LoadPath ps)))
       \<and> length (recents (run e (map LoadPath ps))) \<le> 10"
proof -
  have main: "recents (run e (map LoadPath ps)) = spec_recents ps"
    using assms
  proof (induction ps rule: rev_induct)
    case Nil
    show ?case by (simp add: run_def init_def spec_recents_def)
  next
    case (snoc p ps)
    then have ih: "recents (run e (map LoadPath ps)) = spec_recents ps" by simp
    from snoc.prems have "load_succeeds e p" by simp
    then have ok: "fst (load_path e p (run e (map LoadPath ps))) = None"
      unfolding load_succeeds_def using load_path_ok_indep by blast
    have "recents (run e (map LoadPath (ps @ [p]))) = touch_recents p (spec_recents ps)"
      using load_path_recents [OF ok] ih by (simp add: run_snoc)
    also have "\<dots> = spec_recents (ps @ [p])"
      unfolding spec_recents_def Let_def
      using touch_last10 [of "remdups ps" p] by (simp add: remdups_snoc Let_def)
    finally show ?case .
  qed
  then show ?thesis by (simp add: spec_recents_def Let_def)
qed


theorem recents_most_recent_ten_witness:
  "load_succeeds demo_env ''two.txt'' \<and> load_succeeds demo_env ''three.txt''
   \<and> recents (run demo_env (map LoadPath [''two.txt'', ''three.txt'', ''two.txt''])) = [''three.txt'', ''two.txt'']
   \<and> recents (run demo_env (map LoadPath [''ch01.md'', ''ch02.md'', ''ch03.md'', ''ch04.md'', ''ch05.md'', ''ch06.md'', ''ch07.md'', ''ch08.md'', ''ch09.md'', ''ch10.md'', ''ch11.md'']))
       = [''ch02.md'', ''ch03.md'', ''ch04.md'', ''ch05.md'', ''ch06.md'', ''ch07.md'', ''ch08.md'', ''ch09.md'', ''ch10.md'', ''ch11.md'']"
proof -
  have h: "\<forall>p \<in> set [''two.txt'', ''three.txt'', ''two.txt'']. load_succeeds demo_env p"
    by (simp add: demo_txt_ok)
  have k: "\<forall>p \<in> set [''ch01.md'', ''ch02.md'', ''ch03.md'', ''ch04.md'', ''ch05.md'', ''ch06.md'', ''ch07.md'', ''ch08.md'', ''ch09.md'', ''ch10.md'', ''ch11.md'']. load_succeeds demo_env p"
    by (simp add: demo_num_ok)
  show ?thesis
    using recents_most_recent_ten [OF h] recents_most_recent_ten [OF k] by (simp add: spec_recents_def demo_txt_ok)
qed

subsection \<open>Rendering\<close>

text \<open>
  C7. For a pixmap of positive width and height drawn in fit-to-window mode by a widget
  whose contents rectangle is the whole widget (the viewport), the scale is
  \<open>clamp(min(vw/bw, vh/bh), 0.1, 6.0)\<close>, the rectangle has the pixmap's dimensions times
  the scale, floored, and is centred by integer division. The quotients and products
  are the float ones, whatever they round to, as long as the float of \<open>0.1\<close> lies
  between 0 and 6 and a float product of two numbers that are not negative is not
  negative. With binary64 rounding, the viewport 800 by 600 with the bitmap 1600 by 300
  gives the scale 0.5 and the rectangle 800 by 150 at \<open>y = 225\<close>.
\<close>

theorem fit_to_window_rendering:
  assumes "fit_to_window iv" "pix iv = Some p" "0 < pm_width p" "0 < pm_height p"
    and "avail_width g = g_width g" "avail_height g = g_height g"
    and "0 < fl_tenth ops" "fl_tenth ops \<le> 6"
    and "\<And>i x. 0 \<le> i \<Longrightarrow> 0 \<le> x \<Longrightarrow> 0 \<le> fl_prod ops i x"
  shows "paint_scale ops g iv p
           = clamp (min (fl_quot ops (g_width g) (pm_width p))
                        (fl_quot ops (g_height g) (pm_height p))) (fl_tenth ops) 6.0
       \<and> paintEvent ops g iv
           = Some (spec_fit_rect ops (g_width g) (g_height g) (pm_width p) (pm_height p))"
proof -
  let ?v = "min (fl_quot ops (g_width g) (pm_width p)) (fl_quot ops (g_height g) (pm_height p))"
  let ?c = "clamp ?v (fl_tenth ops) 6"
  have s: "paint_scale ops g iv p = ?c"
    using assms(1-8) by (simp add: paint_scale_def clamp_max_min Let_def)
  have c: "0 \<le> ?c"
    using clamp_pos [OF assms(7,8), of ?v] by simp
  have "0 \<le> fl_prod ops (pm_width p) ?c" "0 \<le> fl_prod ops (pm_height p) ?c"
    using assms(3,4) c by (simp_all add: assms(9))
  then have "paintEvent ops g iv
      = Some (spec_fit_rect ops (g_width g) (g_height g) (pm_width p) (pm_height p))"
    using assms(2-4) s by (simp add: paintEvent_def pm_null_def spec_fit_rect_def py_int_def Let_def)
  with s show ?thesis by simp
qed

theorem fit_to_window_rendering_witness:
  "0 < fl_tenth double_ops \<and> fl_tenth double_ops \<le> 6
   \<and> paint_scale double_ops \<lparr>g_width = 800, g_height = 600, avail_width = 800, avail_height = 600\<rparr>
     \<lparr>pix = Some \<lparr>pm_width = 1600, pm_height = 300\<rparr>, zoom = 1, fit_to_window = True, iv_visible = True\<rparr>
     \<lparr>pm_width = 1600, pm_height = 300\<rparr> = 0.5
   \<and> paintEvent double_ops \<lparr>g_width = 800, g_height = 600, avail_width = 800, avail_height = 600\<rparr>
     \<lparr>pix = Some \<lparr>pm_width = 1600, pm_height = 300\<rparr>, zoom = 1, fit_to_window = True, iv_visible = True\<rparr>
     = Some \<lparr>r_x = 0, r_y = 225, r_w = 800, r_h = 150\<rparr>"
  using fit_to_window_rendering [where ops = double_ops
      and iv = "\<lparr>pix = Some \<lparr>pm_width = 1600, pm_height = 300\<rparr>, zoom = 1, fit_to_window = True, iv_visible = True\<rparr>"
      and p = "\<lparr>pm_width = 1600, pm_height = 300\<rparr>"
      and g = "\<lparr>g_width = 800, g_height = 600, avail_width = 800, avail_height = 600\<rparr>",
      OF _ _ _ _ _ _ double_ops_sound]
  by (simp add: spec_fit_rect_def clamp_def Let_def double_ops_def fl_values)

text \<open>
  C10. \<^verbatim>\<open>set_image\<close> sets the zoom factor to 1 and keeps the fit-to-window flag. An image
  loaded while fit-to-window is on is therefore drawn with the fit-to-window scale, and
  the factor 1 is the scale only once fit-to-window is switched off.
\<close>

theorem image_load_keeps_fit_to_window:
  assumes "ext_of p \<in> IMG_EXTS" "load_pixmap e p = Some pm" "0 < pm_width pm" "0 < pm_height pm"
    and "fit_to_window (image_view s)"
  shows "fit_to_window (set_image pm iv) = fit_to_window iv \<and> zoom (set_image pm iv) = 1
       \<and> fst (load_path e p s) = None
       \<and> pix (image_view (snd (load_path e p s))) = Some pm
       \<and> zoom (image_view (snd (load_path e p s))) = 1
       \<and> fit_to_window (image_view (snd (load_path e p s)))
       \<and> iv_visible (image_view (snd (load_path e p s)))
       \<and> paint_scale ops g (image_view (snd (load_path e p s))) pm
           = max (fl_tenth ops) (min 6.0 (min (fl_quot ops (avail_width g) (pm_width pm))
                                             (fl_quot ops (avail_height g) (pm_height pm))))
       \<and> paint_scale ops g (image_view (toggle_fit False (snd (load_path e p s)))) pm = 1"
  using assms
  by (simp add: load_path_def try_load_def refresh_recents_def set_image_def paint_scale_def
      pm_null_def toggle_fit_def Let_def)

theorem image_load_keeps_fit_to_window_witness:
  "fit_to_window (image_view (run demo_env [ClickFit]))
   \<and> fit_to_window (image_view (snd (load_path demo_env ''wide.png'' (run demo_env [ClickFit]))))
   \<and> zoom (image_view (snd (load_path demo_env ''wide.png'' (run demo_env [ClickFit])))) = 1
   \<and> paint_scale double_ops \<lparr>g_width = 800, g_height = 600, avail_width = 800, avail_height = 600\<rparr>
        (image_view (snd (load_path demo_env ''wide.png'' (run demo_env [ClickFit]))))
        \<lparr>pm_width = 1600, pm_height = 300\<rparr> = 0.5"
proof -
  have x: "ext_of ''wide.png'' \<in> IMG_EXTS"
    by (simp add: ext_defs)
  have l: "load_pixmap demo_env ''wide.png'' = Some \<lparr>pm_width = 1600, pm_height = 300\<rparr>"
    by (simp add: demo_env_def)
  have f: "fit_to_window (image_view (run demo_env [ClickFit]))"
    by (simp add: run_def init_def toggle_fit_def)
  show ?thesis
    using f image_load_keeps_fit_to_window [OF x l _ _ f,
        where g = "\<lparr>g_width = 800, g_height = 600, avail_width = 800, avail_height = 600\<rparr>"
          and ops = double_ops]
    by (simp add: double_ops_def fl_values)
qed

subsection \<open>The status line of a text file\<close>



subsection \<open>Where the program leaves its description\<close>

text \<open>
  C1. A load that fails changes the stored current path. After \<open>two.txt\<close> was loaded and
  is shown, loading \<open>broken.png\<close>, which does not decode, reports
  \<open>Failed to load image\<close> and leaves the text pane as it was, but the current path is
  now \<open>broken.png\<close>: \<^verbatim>\<open>load_path\<close> assigns it before the \<^verbatim>\<open>try\<close>. Everything else
  is kept (\<open>load_path_failure_frame\<close>).
\<close>

theorem failed_load_replaces_current_path:
  "current_path (run demo_env [LoadPath ''two.txt'']) = Some ''two.txt''
   \<and> fst (load_path demo_env ''broken.png'' (run demo_env [LoadPath ''two.txt''])) = Some ''Failed to load image''
   \<and> current_path (snd (load_path demo_env ''broken.png'' (run demo_env [LoadPath ''two.txt''])))
       = Some ''broken.png''
   \<and> plain_text (text_view (snd (load_path demo_env ''broken.png'' (run demo_env [LoadPath ''two.txt'']))))
       = ''a'' @ [newline] @ ''b''
   \<and> te_visible (text_view (snd (load_path demo_env ''broken.png'' (run demo_env [LoadPath ''two.txt'']))))"
proof -
  have x: "ext_of ''broken.png'' \<in> IMG_EXTS" by (simp add: ext_defs)
  have l: "load_pixmap demo_env ''broken.png'' = None" by (simp add: demo_env_def)
  have m: "fst (load_path demo_env ''broken.png'' (run demo_env [LoadPath ''two.txt''])) = Some ''Failed to load image''"
    using x l by (rule image_failure_message)
  have f: "snd (load_path demo_env ''broken.png'' (run demo_env [LoadPath ''two.txt'']))
      = (run demo_env [LoadPath ''two.txt''])\<lparr>current_path := Some ''broken.png''\<rparr>"
    using m by (rule load_path_failure_frame)
  have t: "current_path (run demo_env [LoadPath ''two.txt'']) = Some ''two.txt''"
     "plain_text (text_view (run demo_env [LoadPath ''two.txt''])) = ''a'' @ [newline] @ ''b''"
     "te_visible (text_view (run demo_env [LoadPath ''two.txt'']))"
    by (simp_all add: eval_defs newline_def)
  show ?thesis using m t by (simp add: f)
qed

text \<open>
  C2. A wheel tick over the image view changes nothing. The window's event filter is
  installed on the text pane only, so the branch of \<^verbatim>\<open>eventFilter\<close> for the image view
  (\<open>filter_on_image\<close>) is never entered: with \<open>wide.png\<close> shown and fit-to-window on, a
  tick leaves fit-to-window on and the zoom factor at 1.
\<close>

theorem wheel_over_image_changes_nothing:
  "iv_visible (image_view (run demo_env [ClickFit, LoadPath ''wide.png'']))
   \<and> fit_to_window (image_view (run demo_env [ClickFit, LoadPath ''wide.png'']))
   \<and> zoom (image_view (run demo_env [ClickFit, LoadPath ''wide.png''])) = 1
   \<and> fit_to_window (image_view (run demo_env [ClickFit, LoadPath ''wide.png'', Wheel ImageWidget 120 False]))
   \<and> zoom (image_view (run demo_env [ClickFit, LoadPath ''wide.png'', Wheel ImageWidget 120 False])) = 1"
proof -
  have w: "run demo_env [ClickFit, LoadPath ''wide.png'', Wheel ImageWidget 120 False]
      = run demo_env [ClickFit, LoadPath ''wide.png'']"
    using run_snoc [of demo_env "[ClickFit, LoadPath ''wide.png'']" "Wheel ImageWidget 120 False"]
    by (simp add: wheel_on_image_ignored)
  have "iv_visible (image_view (run demo_env [ClickFit, LoadPath ''wide.png'']))"
    "fit_to_window (image_view (run demo_env [ClickFit, LoadPath ''wide.png'']))"
    "zoom (image_view (run demo_env [ClickFit, LoadPath ''wide.png''])) = 1"
    by (simp_all add: eval_defs toggle_fit_def)
  then show ?thesis by (simp add: w)
qed

text \<open>
  C3. The font of the text pane is scaled on every Control-wheel tick without a bound:
  only the stored factor \<open>text_zoom\<close> is clamped, and the font does not read it. Eleven
  ticks down bring the point size under 0.6 times the base size, twenty-three ticks up
  bring it over 3 times the base size, while \<open>text_zoom\<close> stays in \<open>[0.6, 3.0]\<close>. These are
  ticks on the pane itself, which the filter sees. Ticks over the pane's viewport do not
  reach the filter; the pane's own zoom then moves the font by a point per tick, out of
  the range as well (\<open>viewport_ticks\<close>).
\<close>

theorem font_size_leaves_zoom_range:
  "point_size (te_font (text_view (run demo_env (replicate 11 (Wheel TextWidget (- 120) True)))))
     < 0.6 * point_size (default_font demo_env)
   \<and> 3.0 * point_size (default_font demo_env)
     < point_size (te_font (text_view (run demo_env (replicate 23 (Wheel TextWidget 120 True)))))
   \<and> 0.6 \<le> text_zoom (run demo_env (replicate 11 (Wheel TextWidget (- 120) True)))
   \<and> text_zoom (run demo_env (replicate 23 (Wheel TextWidget 120 True))) \<le> 3.0"
proof -
  have i: "TextWidget \<in> set (filtered (init demo_env))"
    "point_size (te_font (text_view (init demo_env))) = 10" "point_size (default_font demo_env) = 10"
    by (simp_all add: init_def demo_env_def)
  have d: "point_size (te_font (text_view (run demo_env (replicate 11 (Wheel TextWidget (- 120) True)))))
      = 10 * (1 / 1.05) ^ 11"
    unfolding run_def using font_after_ticks [of "- 120" "init demo_env" demo_env 11] i by simp
  have u: "point_size (te_font (text_view (run demo_env (replicate 23 (Wheel TextWidget 120 True)))))
      = 10 * 1.05 ^ 23"
    unfolding run_def using font_after_ticks [of "120" "init demo_env" demo_env 23] i by simp
  have z: "zoom_ok (run demo_env evs)" for evs
    unfolding run_def
    by (rule foldl_inv) (simp add: zoom_ok_def init_def ImageView_init_def, rule step_zoom_ok)
  have z1: "0.6 \<le> text_zoom (run demo_env (replicate 11 (Wheel TextWidget (- 120) True)))"
    using z [of "replicate 11 (Wheel TextWidget (- 120) True)"] by (simp add: zoom_ok_def)
  have z2: "text_zoom (run demo_env (replicate 23 (Wheel TextWidget 120 True))) \<le> 3.0"
    using z [of "replicate 23 (Wheel TextWidget 120 True)"] by (simp add: zoom_ok_def)
  have a: "10 * (1 / 1.05) ^ 11 < (0.6 * 10 :: real)" by (simp add: power_divide)
  have b: "(3.0 * 10 :: real) < 10 * 1.05 ^ 23" by (simp add: power_divide)
  show ?thesis using a b z1 z2 by (simp only: d u i)
qed

text \<open>
  C6. The search of \<^verbatim>\<open>find_next\<close> does not compare case, the count does. On the content
  \<open>AB ab\<close> with the needle \<open>ab\<close> and the cursor at the start, the first \<^verbatim>\<open>find_next\<close>
  selects \<open>AB\<close> at offset 0, the second \<open>ab\<close> at offset 3, the third wraps to offset 0,
  and the count shown is \<open>1 match(es)\<close>.
\<close>

theorem find_next_ignores_case:
  "plain_text (text_view (run demo_env [LoadPath ''mixed.txt'', SetFindText ''ab''])) = ''AB ab''
   \<and> sel_end (text_view (run demo_env [LoadPath ''mixed.txt'', SetFindText ''ab''])) = 0
   \<and> sel_start (text_view (run demo_env [LoadPath ''mixed.txt'', SetFindText ''ab'', FindNext])) = 0
   \<and> selected_text (text_view (run demo_env [LoadPath ''mixed.txt'', SetFindText ''ab'', FindNext])) = ''AB''
   \<and> find_count (run demo_env [LoadPath ''mixed.txt'', SetFindText ''ab'', FindNext]) = ''1 match(es)''
   \<and> sel_start (text_view (run demo_env [LoadPath ''mixed.txt'', SetFindText ''ab'', FindNext, FindNext])) = 3
   \<and> sel_start (text_view (run demo_env [LoadPath ''mixed.txt'', SetFindText ''ab'', FindNext, FindNext, FindNext])) = 0"
  by (simp add: eval_defs find_defs py_count.simps show_nat.simps digit_char_def)


end
